theory Spec2Isabelle
  imports Main
begin

section \<open>Python values used by \<open>scripts/extract_pdf_text.py\<close>\<close>

text \<open>
  A Python \<open>str\<close> is a sequence of Unicode code points, and \<open>len\<close> counts code points.
  A code point is modelled by its number, so "A" is \<open>[65]\<close> and a line break is \<open>[10]\<close>.
\<close>

type_synonym pystr = "nat list"

definition ascii :: "string \<Rightarrow> pystr" where
  "ascii s = map of_char s"

text \<open>
  The objects the script handles: \<open>None\<close>, booleans, integers and strings.  They are the
  values of the result dictionary, and what \<open>page.extract_text()\<close> may hand back.
\<close>

datatype pyobj = PyNone | PyBool bool | PyInt int | PyStr pystr

fun type_name :: "pyobj \<Rightarrow> string" where
  "type_name PyNone = ''NoneType''"
| "type_name (PyBool b) = ''bool''"
| "type_name (PyInt i) = ''int''"
| "type_name (PyStr s) = ''str''"

text \<open>
  A raised exception, reduced to the two things the script observes of it: whether it is an
  instance of \<open>Exception\<close> (what the clause \<open>except Exception\<close> tests), and \<open>str(error)\<close>.
  Python's errors (\<open>OSError\<close>, \<open>AttributeError\<close>, the library's \<open>PdfReadError\<close>, ...) all
  derive from \<open>Exception\<close>; \<open>KeyboardInterrupt\<close>, \<open>SystemExit\<close> and \<open>GeneratorExit\<close> derive
  from \<open>BaseException\<close> only and are no errors.
\<close>

datatype exn = Exn (inst_Exception: bool) (str_exn: pystr)

text \<open>A dictionary keeps its keys in insertion order, which is the order \<open>json.dumps\<close> writes.\<close>

type_synonym dict = "(string \<times> pyobj) list"

subsection \<open>\<open>str.strip()\<close>\<close>

text \<open>
  Without an argument \<open>strip\<close> removes the code points for which the interpreter's
  whitespace test holds: U+0009..U+000D, U+001C..U+0020, U+0085, U+00A0, U+1680,
  U+2000..U+200A, U+2028, U+2029, U+202F, U+205F and U+3000.
\<close>

definition isspace :: "nat \<Rightarrow> bool" where
  "isspace c \<longleftrightarrow>
     (9 \<le> c \<and> c \<le> 13) \<or> (28 \<le> c \<and> c \<le> 32) \<or> c = 133 \<or> c = 160 \<or> c = 5760 \<or>
     (8192 \<le> c \<and> c \<le> 8202) \<or> c = 8232 \<or> c = 8233 \<or> c = 8239 \<or> c = 8287 \<or> c = 12288"

definition lstrip :: "pystr \<Rightarrow> pystr" where
  "lstrip s = dropWhile isspace s"

definition rstrip :: "pystr \<Rightarrow> pystr" where
  "rstrip s = rev (dropWhile isspace (rev s))"

definition strip :: "pystr \<Rightarrow> pystr" where
  "strip s = rstrip (lstrip s)"

text \<open>
  Looking up the method \<open>strip\<close> on an object that is no string raises
  \<open>AttributeError: 'T' object has no attribute 'strip'\<close>.
\<close>

definition AttributeError :: "pyobj \<Rightarrow> string \<Rightarrow> exn" where
  "AttributeError v attr =
     Exn True (ascii ([CHR 0x27] @ type_name v @ [CHR 0x27] @ '' object has no attribute '' @
                      [CHR 0x27] @ attr @ [CHR 0x27]))"

definition IndexError :: exn where
  "IndexError = Exn True (ascii ''sequence index out of range'')"

section \<open>The environment: file system and libraries\<close>

text \<open>
  A page of a loaded document is what \<open>reader.pages[i].extract_text()\<close> does on it: it
  raises, or it returns an object.  A reader is its sequence of pages.
\<close>

type_synonym page = "exn + pyobj"

record reader =
  pages :: "page list"

text \<open>
  \<open>open_rb\<close> is \<open>open(pdf_path, 'rb')\<close>, and \<open>PdfReader\<close> is \<open>PyPDF2.PdfReader(file)\<close>
  together with reading \<open>reader.pages\<close>, so a document the library cannot parse is an
  \<open>Inl\<close> here.  The type \<open>'f\<close> is the type of open files.  Leaving the \<open>with\<close> block closes
  the file on every path; the result does not depend on it, and it is left out.
\<close>

record 'f env =
  open_rb :: "pystr \<Rightarrow> exn + 'f"
  PdfReader :: "'f \<Rightarrow> exn + reader"

section \<open>\<open>extract_text_from_pdf\<close>\<close>

definition getitem :: "page list \<Rightarrow> nat \<Rightarrow> page" where
  "getitem ps i = (if i < length ps then ps ! i else Inl IndexError)"

text \<open>
  The loop \<open>for page_num in range(total_pages)\<close>, over the list of the page numbers still
  to visit, with the accumulator \<open>extracted_text\<close>.  An exception leaves the loop at once.
\<close>

fun for_pages :: "reader \<Rightarrow> nat list \<Rightarrow> pystr \<Rightarrow> exn + pystr" where
  "for_pages reader [] extracted_text = Inr extracted_text"
| "for_pages reader (page_num # rest) extracted_text =
     (case getitem (pages reader) page_num of
        Inl e \<Rightarrow> Inl e
      | Inr (PyStr page_text) \<Rightarrow>
          for_pages reader rest
            (if strip page_text \<noteq> [] then extracted_text @ page_text @ [10, 10]
             else extracted_text)
      | Inr v \<Rightarrow> Inl (AttributeError v ''strip''))"

text \<open>The body of the \<open>try\<close> statement: \<open>Inl\<close> is an exception leaving the block.\<close>

definition try_body :: "'f env \<Rightarrow> pystr \<Rightarrow> exn + dict" where
  "try_body env pdf_path =
     (case open_rb env pdf_path of
        Inl e \<Rightarrow> Inl e
      | Inr file \<Rightarrow>
          (case PdfReader env file of
             Inl e \<Rightarrow> Inl e
           | Inr reader \<Rightarrow>
               (let total_pages = length (pages reader) in
                case for_pages reader [0..<total_pages] [] of
                  Inl e \<Rightarrow> Inl e
                | Inr acc \<Rightarrow>
                    (let extracted_text = strip acc in
                     Inr [(''success'', PyBool True),
                          (''text'', PyStr extracted_text),
                          (''pages'', PyInt (int total_pages)),
                          (''length'', PyInt (int (length extracted_text)))]))))"

text \<open>The dictionary built by the \<open>except\<close> clause, from \<open>str(error)\<close>.\<close>

definition failure :: "pystr \<Rightarrow> dict" where
  "failure msg =
     [(''success'', PyBool False),
      (''error'', PyStr msg),
      (''text'', PyStr []),
      (''pages'', PyInt 0),
      (''length'', PyInt 0)]"

text \<open>
  The whole function.  \<open>except Exception as error\<close> handles the instances of \<open>Exception\<close>;
  any other exception leaves the function (\<open>Inl\<close>).
\<close>

definition extract_text_from_pdf :: "'f env \<Rightarrow> pystr \<Rightarrow> exn + dict" where
  "extract_text_from_pdf env pdf_path =
     (case try_body env pdf_path of
        Inr result \<Rightarrow> Inr result
      | Inl error \<Rightarrow>
          if inst_Exception error then Inr (failure (str_exn error)) else Inl error)"

section \<open>The command line\<close>

definition usage :: dict where
  "usage =
     [(''success'', PyBool False),
      (''error'', PyStr (ascii ''Usage: python extract_pdf_text.py <pdf_path>'')),
      (''text'', PyStr []),
      (''pages'', PyInt 0),
      (''length'', PyInt 0)]"

text \<open>
  The script run as a program on \<open>sys.argv\<close>: what it prints on standard output and the exit
  status, or the exception that reaches the interpreter uncaught.  Every \<open>print(json.dumps(d))\<close>
  writes one JSON object, recorded here as the dictionary \<open>d\<close> it serialises.  \<open>sys.exit(1)\<close>
  ends the program with status 1, and running off the end of the script with status 0.
  \<open>sys.argv[1]\<close> is read only when \<open>sys.argv\<close> has two elements.
\<close>

definition main :: "'f env \<Rightarrow> pystr list \<Rightarrow> exn + (dict list \<times> int)" where
  "main env argv =
     (if length argv \<noteq> 2 then Inr ([usage], 1)
      else
        (let pdf_path = argv ! 1 in
         case extract_text_from_pdf env pdf_path of
           Inl e \<Rightarrow> Inl e
         | Inr result \<Rightarrow> Inr ([result], 0)))"

section \<open>The text the specification describes\<close>

text \<open>\<open>sep.join(xs)\<close>: the elements of \<open>xs\<close> with \<open>sep\<close> between consecutive ones.\<close>

fun join :: "pystr \<Rightarrow> pystr list \<Rightarrow> pystr" where
  "join sep [] = []"
| "join sep [x] = x"
| "join sep (x # y # ys) = x @ sep @ join sep (y # ys)"

text \<open>A page text is kept when it is non-empty after trimming whitespace.\<close>

definition nonblank :: "pystr \<Rightarrow> bool" where
  "nonblank t \<longleftrightarrow> strip t \<noteq> []"

text \<open>
  The specification's text of a document, from its page texts in page order: the kept
  texts, a blank line between consecutive ones, the whole trimmed.
\<close>

definition spec_text :: "pystr list \<Rightarrow> pystr" where
  "spec_text page_texts = strip (join [10, 10] (filter nonblank page_texts))"

text \<open>What one turn of the loop appends to the accumulator for a page text.\<close>

definition page_add :: "pystr \<Rightarrow> pystr" where
  "page_add t = (if nonblank t then t @ [10, 10] else [])"

text \<open>
  The runs in which whatever is raised while opening, parsing or extracting is an error,
  that is, an instance of \<open>Exception\<close>.
\<close>

definition is_error_page :: "page \<Rightarrow> bool" where
  "is_error_page p = (case p of Inl e \<Rightarrow> inst_Exception e | Inr v \<Rightarrow> True)"

definition raises_only_errors :: "'f env \<Rightarrow> pystr \<Rightarrow> bool" where
  "raises_only_errors env pdf_path =
     (case open_rb env pdf_path of
        Inl e \<Rightarrow> inst_Exception e
      | Inr file \<Rightarrow>
          (case PdfReader env file of
             Inl e \<Rightarrow> inst_Exception e
           | Inr reader \<Rightarrow> list_all is_error_page (pages reader)))"

section \<open>Two runs on the same file\<close>

text \<open>
  What the library gives for a page in two runs is the same: the same object in both, or
  an exception in both (its message may differ from run to run).
\<close>

definition same_page :: "page \<Rightarrow> page \<Rightarrow> bool" where
  "same_page p q = (case p of Inl e \<Rightarrow> isl q | Inr v \<Rightarrow> q = Inr v)"

text \<open>
  Two runs see the same unmodified file at a path: the file opens in both or in neither, the
  document loads in both or in neither, and a loaded document has the same number of pages,
  page by page the same.  The file objects of the two runs, and the messages of what is
  raised, are not compared.
\<close>

definition same_file :: "'f env \<Rightarrow> 'g env \<Rightarrow> pystr \<Rightarrow> bool" where
  "same_file env1 env2 pdf_path =
     (case open_rb env1 pdf_path of
        Inl e \<Rightarrow> isl (open_rb env2 pdf_path)
      | Inr file1 \<Rightarrow>
          (case open_rb env2 pdf_path of
             Inl e \<Rightarrow> False
           | Inr file2 \<Rightarrow>
               (case PdfReader env1 file1 of
                  Inl e \<Rightarrow> isl (PdfReader env2 file2)
                | Inr reader1 \<Rightarrow>
                    (case PdfReader env2 file2 of
                       Inl e \<Rightarrow> False
                     | Inr reader2 \<Rightarrow> list_all2 same_page (pages reader1) (pages reader2)))))"

section \<open>Sample environments\<close>

text \<open>A file system where every path opens, and holds a document with the given pages.\<close>

definition env_with_pages :: "page list \<Rightarrow> nat env" where
  "env_with_pages ps = \<lparr>open_rb = (\<lambda>p. Inr 3), PdfReader = (\<lambda>f. Inr \<lparr>pages = ps\<rparr>)\<rparr>"

text \<open>A file system with no file at all.\<close>

definition env_no_file :: "nat env" where
  "env_no_file =
     \<lparr>open_rb = (\<lambda>p. Inl (Exn True (ascii ''No such file or directory''))),
      PdfReader = (\<lambda>f. Inr \<lparr>pages = []\<rparr>)\<rparr>"

text \<open>A file system whose files open and are no PDF documents.\<close>

definition env_not_pdf :: "nat env" where
  "env_not_pdf =
     \<lparr>open_rb = (\<lambda>p. Inr 3),
      PdfReader = (\<lambda>f. Inl (Exn True (ascii ''EOF marker not found'')))\<rparr>"


text \<open>
  A second run on each of these, where the file objects are booleans and the messages of
  what is raised are other ones.
\<close>

definition rerun_with_pages :: "page list \<Rightarrow> bool env" where
  "rerun_with_pages ps = \<lparr>open_rb = (\<lambda>p. Inr True), PdfReader = (\<lambda>f. Inr \<lparr>pages = ps\<rparr>)\<rparr>"

definition rerun_no_file :: "bool env" where
  "rerun_no_file =
     \<lparr>open_rb = (\<lambda>p. Inl (Exn True (ascii ''Permission denied''))),
      PdfReader = (\<lambda>f. Inr \<lparr>pages = []\<rparr>)\<rparr>"

definition rerun_not_pdf :: "bool env" where
  "rerun_not_pdf =
     \<lparr>open_rb = (\<lambda>p. Inr True),
      PdfReader = (\<lambda>f. Inl (Exn True (ascii ''Stream has ended unexpectedly'')))\<rparr>"

section \<open>Facts about \<open>strip\<close>\<close>

lemma isspace_newline: "isspace 10"
  by (simp add: isspace_def)

lemma strip_Nil: "strip [] = []"
  by (simp add: strip_def rstrip_def lstrip_def)

lemma rstrip_append_space:
  assumes "\<forall>c \<in> set ws. isspace c"
  shows "rstrip (xs @ ws) = rstrip xs"
proof -
  have "dropWhile isspace (rev ws @ rev xs) = dropWhile isspace (rev xs)"
    by (rule dropWhile_append2) (use assms in simp)
  then show ?thesis by (simp add: rstrip_def)
qed

lemma lstrip_all_space:
  assumes "\<forall>c \<in> set xs. isspace c"
  shows "lstrip xs = []"
  using assms by (simp add: lstrip_def)

lemma strip_append_space:
  assumes ws: "\<forall>c \<in> set ws. isspace c"
  shows "strip (xs @ ws) = strip xs"
proof (cases "\<forall>c \<in> set xs. isspace c")
  case True
  with ws have "\<forall>c \<in> set (xs @ ws). isspace c" by auto
  then have "lstrip (xs @ ws) = []" by (rule lstrip_all_space)
  moreover from True have "lstrip xs = []" by (rule lstrip_all_space)
  ultimately show ?thesis by (simp add: strip_def)
next
  case False
  then obtain c where "c \<in> set xs" "\<not> isspace c" by blast
  then have "lstrip (xs @ ws) = lstrip xs @ ws"
    by (simp add: lstrip_def dropWhile_append1)
  then show ?thesis using ws by (simp add: strip_def rstrip_append_space)
qed

section \<open>The loop\<close>

lemma for_pages_strings:
  assumes "pages reader = map (\<lambda>t. Inr (PyStr t)) page_texts"
    and "\<forall>i \<in> set idxs. i < length page_texts"
  shows "for_pages reader idxs acc = Inr (acc @ concat (map (\<lambda>i. page_add (page_texts ! i)) idxs))"
  using assms(2)
proof (induction idxs arbitrary: acc)
  case Nil
  show ?case by simp
next
  case (Cons i idxs)
  then have i: "i < length page_texts" by simp
  with assms(1) have "getitem (pages reader) i = Inr (PyStr (page_texts ! i))"
    by (simp add: getitem_def)
  with Cons show ?case by (simp add: page_add_def nonblank_def)
qed

lemma for_pages_all_strings:
  assumes "pages reader = map (\<lambda>t. Inr (PyStr t)) page_texts"
  shows "for_pages reader [0..<length page_texts] [] = Inr (concat (map page_add page_texts))"
proof -
  have "for_pages reader [0..<length page_texts] [] =
        Inr ([] @ concat (map (\<lambda>i. page_add (page_texts ! i)) [0..<length page_texts]))"
    by (rule for_pages_strings [OF assms]) simp
  moreover have "map (\<lambda>i. page_add (page_texts ! i)) [0..<length page_texts] = map page_add page_texts"
    by (rule nth_equalityI) simp_all
  ultimately show ?thesis by simp
qed

lemma concat_page_add:
  "concat (map page_add ts) =
     (if filter nonblank ts = [] then [] else join [10, 10] (filter nonblank ts) @ [10, 10])"
proof (induction ts)
  case Nil
  show ?case by simp
next
  case (Cons t ts)
  show ?case
  proof (cases "nonblank t")
    case False
    with Cons show ?thesis by (simp add: page_add_def)
  next
    case True
    show ?thesis
    proof (cases "filter nonblank ts")
      case Nil
      with True Cons show ?thesis by (simp add: page_add_def)
    next
      case (Cons u us)
      with True Cons.IH show ?thesis by (simp add: page_add_def)
    qed
  qed
qed

lemma strip_concat_page_add: "strip (concat (map page_add ts)) = spec_text ts"
  by (simp add: concat_page_add spec_text_def strip_append_space isspace_newline)

lemma for_pages_Inr_strings:
  assumes "for_pages reader idxs acc = Inr x"
  shows "\<forall>i \<in> set idxs. \<exists>s. getitem (pages reader) i = Inr (PyStr s)"
  using assms
proof (induction idxs arbitrary: acc)
  case Nil
  show ?case by simp
next
  case (Cons i idxs)
  from Cons.prems obtain s where s: "getitem (pages reader) i = Inr (PyStr s)"
    by (auto split: sum.splits pyobj.splits)
  with Cons.prems have "\<exists>acc'. for_pages reader idxs acc' = Inr x"
    by (auto split: if_splits)
  with Cons.IH s show ?case by auto
qed

lemma pages_all_strings:
  assumes "\<forall>i < length ps. \<exists>s. getitem ps i = Inr (PyStr s)"
  shows "\<exists>page_texts. ps = map (\<lambda>t. Inr (PyStr t)) page_texts"
  using assms
proof (induction ps)
  case Nil
  show ?case by simp
next
  case (Cons p ps)
  from Cons.prems have "\<exists>s. getitem (p # ps) 0 = Inr (PyStr s)" by blast
  then obtain s where p: "p = Inr (PyStr s)" by (auto simp: getitem_def)
  have "\<forall>i < length ps. \<exists>s. getitem ps i = Inr (PyStr s)"
  proof (intro allI impI)
    fix i assume "i < length ps"
    then have "Suc i < length (p # ps)" by simp
    with Cons.prems have "\<exists>s. getitem (p # ps) (Suc i) = Inr (PyStr s)" by blast
    then show "\<exists>s. getitem ps i = Inr (PyStr s)" by (simp add: getitem_def split: if_splits)
  qed
  with Cons.IH obtain ts where "ps = map (\<lambda>t. Inr (PyStr t)) ts" by blast
  with p have "p # ps = map (\<lambda>t. Inr (PyStr t)) (s # ts)" by simp
  then show ?case by (rule exI)
qed

lemma for_pages_append:
  assumes "\<forall>i \<in> set pre. \<exists>s. getitem (pages reader) i = Inr (PyStr s)"
  shows "\<exists>acc'. for_pages reader (pre @ rest) acc = for_pages reader rest acc'"
  using assms
proof (induction pre arbitrary: acc)
  case Nil
  show ?case by auto
next
  case (Cons i pre)
  then obtain s where "getitem (pages reader) i = Inr (PyStr s)" by auto
  moreover from Cons have "\<And>a. \<exists>acc'. for_pages reader (pre @ rest) a = for_pages reader rest acc'"
    by simp
  ultimately show ?case by simp
qed

lemma for_pages_first_failure:
  assumes n: "n < length (pages reader)"
    and before: "\<forall>i < n. \<exists>s. pages reader ! i = Inr (PyStr s)"
  shows "\<exists>acc. for_pages reader [0..<length (pages reader)] [] =
           for_pages reader (n # [Suc n..<length (pages reader)]) acc"
proof -
  have "\<forall>i \<in> set [0..<n]. \<exists>s. getitem (pages reader) i = Inr (PyStr s)"
    using n before by (simp add: getitem_def)
  then have "\<exists>acc. for_pages reader ([0..<n] @ (n # [Suc n..<length (pages reader)])) [] =
                   for_pages reader (n # [Suc n..<length (pages reader)]) acc"
    by (rule for_pages_append)
  moreover have "[0..<length (pages reader)] = [0..<n] @ (n # [Suc n..<length (pages reader)])"
  proof -
    from n have "[0..<n + (length (pages reader) - n)] = [0..<n] @ [n..<n + (length (pages reader) - n)]"
      by (intro upt_add_eq_append) simp
    with n have "[0..<length (pages reader)] = [0..<n] @ [n..<length (pages reader)]"
      by simp
    with n show ?thesis by (simp add: upt_conv_Cons)
  qed
  ultimately show ?thesis by simp
qed

lemma for_pages_raises:
  assumes n: "n < length (pages reader)"
    and before: "\<forall>i < n. \<exists>s. pages reader ! i = Inr (PyStr s)"
    and at: "pages reader ! n = Inl e"
  shows "for_pages reader [0..<length (pages reader)] [] = Inl e"
proof -
  from for_pages_first_failure [OF n before] obtain acc where
    "for_pages reader [0..<length (pages reader)] [] =
       for_pages reader (n # [Suc n..<length (pages reader)]) acc" ..
  also have "\<dots> = Inl e" using n at by (simp add: getitem_def)
  finally show ?thesis .
qed

lemma for_pages_not_str:
  assumes n: "n < length (pages reader)"
    and before: "\<forall>i < n. \<exists>s. pages reader ! i = Inr (PyStr s)"
    and at: "pages reader ! n = Inr v" and v: "\<forall>s. v \<noteq> PyStr s"
  shows "for_pages reader [0..<length (pages reader)] [] = Inl (AttributeError v ''strip'')"
proof -
  from for_pages_first_failure [OF n before] obtain acc where
    "for_pages reader [0..<length (pages reader)] [] =
       for_pages reader (n # [Suc n..<length (pages reader)]) acc" ..
  also have "\<dots> = Inl (AttributeError v ''strip'')"
    using n at v by (cases v) (simp_all add: getitem_def)
  finally show ?thesis .
qed

lemma for_pages_Inl_error:
  assumes "for_pages reader idxs acc = Inl e" and "list_all is_error_page (pages reader)"
  shows "inst_Exception e"
  using assms(1)
proof (induction idxs arbitrary: acc)
  case Nil
  then show ?case by simp
next
  case (Cons i idxs)
  show ?case
  proof (cases "getitem (pages reader) i")
    case (Inl e')
    with Cons.prems have e: "e' = e" by simp
    show ?thesis
    proof (cases "i < length (pages reader)")
      case True
      with Inl e have "pages reader ! i = Inl e" by (simp add: getitem_def)
      moreover from True assms(2) have "is_error_page (pages reader ! i)"
        by (simp add: list_all_length)
      ultimately show ?thesis by (simp add: is_error_page_def)
    next
      case False
      with Inl e show ?thesis by (auto simp: getitem_def IndexError_def)
    qed
  next
    case (Inr v)
    show ?thesis
    proof (cases v)
      case (PyStr s)
      with Inr Cons.prems Cons.IH show ?thesis by (auto split: if_splits)
    qed (use Inr Cons.prems in \<open>auto simp: AttributeError_def\<close>)
  qed
qed

section \<open>The function\<close>

lemma try_body_strings:
  assumes "open_rb env pdf_path = Inr file" and "PdfReader env file = Inr reader"
    and "pages reader = map (\<lambda>t. Inr (PyStr t)) page_texts"
  shows "try_body env pdf_path =
           Inr [(''success'', PyBool True),
                (''text'', PyStr (spec_text page_texts)),
                (''pages'', PyInt (int (length page_texts))),
                (''length'', PyInt (int (length (spec_text page_texts))))]"
proof -
  have "length (pages reader) = length page_texts" using assms(3) by simp
  with for_pages_all_strings [OF assms(3)]
  have "for_pages reader [0..<length (pages reader)] [] = Inr (concat (map page_add page_texts))"
    by simp
  with assms(1,2) \<open>length (pages reader) = length page_texts\<close> show ?thesis
    by (simp add: try_body_def Let_def strip_concat_page_add)
qed

lemma extract_strings:
  assumes "open_rb env pdf_path = Inr file" and "PdfReader env file = Inr reader"
    and "pages reader = map (\<lambda>t. Inr (PyStr t)) page_texts"
  shows "extract_text_from_pdf env pdf_path =
           Inr [(''success'', PyBool True),
                (''text'', PyStr (spec_text page_texts)),
                (''pages'', PyInt (int (length page_texts))),
                (''length'', PyInt (int (length (spec_text page_texts))))]"
  by (simp add: extract_text_from_pdf_def try_body_strings [OF assms])

lemma try_body_Inr_strings:
  assumes "try_body env pdf_path = Inr result"
  shows "\<exists>file reader page_texts. open_rb env pdf_path = Inr file \<and>
           PdfReader env file = Inr reader \<and> pages reader = map (\<lambda>t. Inr (PyStr t)) page_texts"
proof -
  from assms obtain fl reader acc where f: "open_rb env pdf_path = Inr fl"
    and r: "PdfReader env fl = Inr reader"
    and l: "for_pages reader [0..<length (pages reader)] [] = Inr acc"
    by (auto simp: try_body_def Let_def split: sum.splits)
  from for_pages_Inr_strings [OF l]
  have "\<forall>i < length (pages reader). \<exists>s. getitem (pages reader) i = Inr (PyStr s)" by simp
  then obtain ts where "pages reader = map (\<lambda>t. Inr (PyStr t)) ts"
    using pages_all_strings by blast
  with f r show ?thesis by blast
qed

lemma try_body_Inl_error:
  assumes "raises_only_errors env pdf_path" and "try_body env pdf_path = Inl e"
  shows "inst_Exception e"
proof (cases "open_rb env pdf_path")
  case (Inl e')
  with assms show ?thesis by (simp add: raises_only_errors_def try_body_def)
next
  case fl: (Inr fl)
  show ?thesis
  proof (cases "PdfReader env fl")
    case (Inl e')
    with fl assms show ?thesis by (simp add: raises_only_errors_def try_body_def)
  next
    case (Inr reader)
    with fl assms have "list_all is_error_page (pages reader)"
      and "for_pages reader [0..<length (pages reader)] [] = Inl e"
      by (auto simp: raises_only_errors_def try_body_def Let_def split: sum.splits)
    then show ?thesis using for_pages_Inl_error by blast
  qed
qed

lemma extract_success_body:
  "extract_text_from_pdf env pdf_path = Inr result \<Longrightarrow>
   map_of result ''success'' = Some (PyBool True) \<Longrightarrow> try_body env pdf_path = Inr result"
  by (auto simp: extract_text_from_pdf_def failure_def split: sum.splits if_splits)


lemmas eval_defs = extract_text_from_pdf_def try_body_def env_with_pages_def env_no_file_def
  env_not_pdf_def Let_def getitem_def ascii_def strip_def lstrip_def rstrip_def isspace_def
  failure_def AttributeError_def IndexError_def upt_conv_Cons main_def usage_def
  raises_only_errors_def is_error_page_def

lemma spec_text_blank:
  assumes "\<forall>t \<in> set page_texts. strip t = []"
  shows "spec_text page_texts = []"
proof -
  from assms have "filter nonblank page_texts = []"
    by (simp add: nonblank_def filter_empty_conv)
  then show ?thesis by (simp add: spec_text_def strip_Nil)
qed

lemma extract_raises_error:
  assumes "try_body env pdf_path = Inl e" and "inst_Exception e"
  shows "extract_text_from_pdf env pdf_path = Inr (failure (str_exn e))"
  using assms by (simp add: extract_text_from_pdf_def)

lemma try_body_page_raises:
  assumes "open_rb env pdf_path = Inr fl" and "PdfReader env fl = Inr reader"
    and "for_pages reader [0..<length (pages reader)] [] = Inl e"
  shows "try_body env pdf_path = Inl e"
  using assms by (simp add: try_body_def Let_def)

lemma extract_returns:
  assumes "raises_only_errors env pdf_path"
  shows "\<exists>result. extract_text_from_pdf env pdf_path = Inr result"
proof (cases "try_body env pdf_path")
  case (Inl e)
  with assms have "inst_Exception e" by (simp add: try_body_Inl_error)
  with Inl show ?thesis by (simp add: extract_text_from_pdf_def)
next
  case (Inr r)
  then show ?thesis by (simp add: extract_text_from_pdf_def)
qed

text \<open>
  Claim C1.  When the extraction succeeds, the file opened, the document loaded, every page
  gave a string, and the text of the result is: the page texts that are non-empty after
  trimming, in page order, with a blank line (two line breaks) between consecutive ones, the
  whole trimmed.  Pages whose text is empty or whitespace only leave no trace.
\<close>
theorem extract_text_is_spec_text:
  assumes "extract_text_from_pdf env pdf_path = Inr result"
    and "map_of result ''success'' = Some (PyBool True)"
  shows "\<exists>file reader page_texts.
           open_rb env pdf_path = Inr file \<and> PdfReader env file = Inr reader \<and>
           pages reader = map (\<lambda>t. Inr (PyStr t)) page_texts \<and>
           map_of result ''text'' =
             Some (PyStr (strip (join [10, 10] (filter (\<lambda>t. strip t \<noteq> []) page_texts))))"
proof -
  from assms have body: "try_body env pdf_path = Inr result" by (rule extract_success_body)
  then obtain fl reader page_texts where env: "open_rb env pdf_path = Inr fl"
    "PdfReader env fl = Inr reader" "pages reader = map (\<lambda>t. Inr (PyStr t)) page_texts"
    using try_body_Inr_strings by blast
  from try_body_strings [OF env] body
  have "map_of result ''text'' = Some (PyStr (spec_text page_texts))" by auto
  moreover have "spec_text page_texts = strip (join [10, 10] (filter (\<lambda>t. strip t \<noteq> []) page_texts))"
    by (simp add: spec_text_def nonblank_def [abs_def])
  ultimately have "open_rb env pdf_path = Inr fl \<and> PdfReader env fl = Inr reader \<and>
      pages reader = map (\<lambda>t. Inr (PyStr t)) page_texts \<and>
      map_of result ''text'' =
        Some (PyStr (strip (join [10, 10] (filter (\<lambda>t. strip t \<noteq> []) page_texts))))"
    using env by simp
  then show ?thesis by (intro exI)
qed

theorem extract_text_is_spec_text_witness:
  "extract_text_from_pdf
     (env_with_pages [Inr (PyStr (ascii ''A'')), Inr (PyStr (ascii '' '')), Inr (PyStr []),
                      Inr (PyStr (ascii ''B ''))]) (ascii ''a.pdf'') =
     Inr [(''success'', PyBool True), (''text'', PyStr [65, 10, 10, 66]), (''pages'', PyInt 4),
          (''length'', PyInt 4)] \<and>
   (\<exists>file reader page_texts.
      open_rb (env_with_pages [Inr (PyStr (ascii ''A'')), Inr (PyStr (ascii '' '')),
                 Inr (PyStr []), Inr (PyStr (ascii ''B ''))]) (ascii ''a.pdf'') = Inr file \<and>
      PdfReader (env_with_pages [Inr (PyStr (ascii ''A'')), Inr (PyStr (ascii '' '')),
                 Inr (PyStr []), Inr (PyStr (ascii ''B ''))]) file = Inr reader \<and>
      pages reader = map (\<lambda>t. Inr (PyStr t)) page_texts \<and>
      map_of [(''success'', PyBool True), (''text'', PyStr [65, 10, 10, 66]),
              (''pages'', PyInt 4), (''length'', PyInt 4)] ''text'' =
        Some (PyStr (strip (join [10, 10] (filter (\<lambda>t. strip t \<noteq> []) page_texts)))))"
proof -
  have run: "extract_text_from_pdf
     (env_with_pages [Inr (PyStr (ascii ''A'')), Inr (PyStr (ascii '' '')), Inr (PyStr []),
                      Inr (PyStr (ascii ''B ''))]) (ascii ''a.pdf'') =
     Inr [(''success'', PyBool True), (''text'', PyStr [65, 10, 10, 66]), (''pages'', PyInt 4),
          (''length'', PyInt 4)]"
    by (simp add: eval_defs)
  have ok: "map_of [(''success'', PyBool True), (''text'', PyStr [65, 10, 10, 66]),
      (''pages'', PyInt 4), (''length'', PyInt 4)] ''success'' = Some (PyBool True)"
    by simp
  show ?thesis by (rule conjI [OF run extract_text_is_spec_text [OF run ok]])
qed

text \<open>
  Claim C2.  For a document of two pages or more, every page giving a string and one of them
  having a character that is no whitespace, the result has \<open>success\<close> true, \<open>pages\<close> the number
  of pages of the reader, and \<open>length\<close> the number of characters of \<open>text\<close>.
\<close>
theorem extract_success_pages_length:
  assumes "open_rb env pdf_path = Inr file" and "PdfReader env file = Inr reader"
    and "pages reader = map (\<lambda>t. Inr (PyStr t)) page_texts"
    and "2 \<le> length page_texts" and "\<exists>t \<in> set page_texts. strip t \<noteq> []"
  shows "\<exists>text. extract_text_from_pdf env pdf_path =
           Inr [(''success'', PyBool True),
                (''text'', PyStr text),
                (''pages'', PyInt (int (length (pages reader)))),
                (''length'', PyInt (int (length text)))]"
proof -
  have "length (pages reader) = length page_texts" using assms(3) by simp
  with extract_strings [OF assms(1-3)]
  have "extract_text_from_pdf env pdf_path =
           Inr [(''success'', PyBool True),
                (''text'', PyStr (spec_text page_texts)),
                (''pages'', PyInt (int (length (pages reader)))),
                (''length'', PyInt (int (length (spec_text page_texts))))]"
    by simp
  then show ?thesis by (rule exI)
qed

theorem extract_success_pages_length_witness:
  "2 \<le> length [ascii ''Hi'', [], ascii ''yo''] \<and>
   (\<exists>text. extract_text_from_pdf
      (env_with_pages (map (\<lambda>t. Inr (PyStr t)) [ascii ''Hi'', [], ascii ''yo''])) (ascii ''a.pdf'') =
      Inr [(''success'', PyBool True),
           (''text'', PyStr text),
           (''pages'', PyInt (int (length (pages \<lparr>pages = map (\<lambda>t. Inr (PyStr t)) [ascii ''Hi'', [], ascii ''yo'']\<rparr>)))),
           (''length'', PyInt (int (length text)))]) \<and>
   extract_text_from_pdf
      (env_with_pages (map (\<lambda>t. Inr (PyStr t)) [ascii ''Hi'', [], ascii ''yo''])) (ascii ''a.pdf'') =
      Inr [(''success'', PyBool True), (''text'', PyStr [72, 105, 10, 10, 121, 111]),
           (''pages'', PyInt 3), (''length'', PyInt 6)]"
proof -
  have o: "open_rb (env_with_pages (map (\<lambda>t. Inr (PyStr t)) [ascii ''Hi'', [], ascii ''yo'']))
             (ascii ''a.pdf'') = Inr 3"
    by (simp add: env_with_pages_def)
  have r: "PdfReader (env_with_pages (map (\<lambda>t. Inr (PyStr t)) [ascii ''Hi'', [], ascii ''yo''])) 3 =
             Inr \<lparr>pages = map (\<lambda>t. Inr (PyStr t)) [ascii ''Hi'', [], ascii ''yo'']\<rparr>"
    by (simp add: env_with_pages_def)
  have p: "pages \<lparr>pages = map (\<lambda>t. Inr (PyStr t)) [ascii ''Hi'', [], ascii ''yo'']\<rparr> =
             map (\<lambda>t. Inr (PyStr t)) [ascii ''Hi'', [], ascii ''yo'']"
    by simp
  have l: "2 \<le> length [ascii ''Hi'', [], ascii ''yo'']" by simp
  have n: "\<exists>t \<in> set [ascii ''Hi'', [], ascii ''yo'']. strip t \<noteq> []"
    by (simp add: eval_defs)
  have run: "extract_text_from_pdf
      (env_with_pages (map (\<lambda>t. Inr (PyStr t)) [ascii ''Hi'', [], ascii ''yo''])) (ascii ''a.pdf'') =
      Inr [(''success'', PyBool True), (''text'', PyStr [72, 105, 10, 10, 121, 111]),
           (''pages'', PyInt 3), (''length'', PyInt 6)]"
    by (simp add: eval_defs)
  show ?thesis
    by (intro conjI) (rule l, rule extract_success_pages_length [OF o r p l n], rule run)
qed

text \<open>
  Claim C3.  When opening the file, loading the document, or extracting the text of a page
  raises an error \<open>e\<close>, the function returns the failure dictionary with \<open>str(e)\<close>, an empty
  text, no page and length 0.  A failure on page \<open>n\<close> gives this dictionary whatever the
  pages before \<open>n\<close> held: nothing of the accumulated text is returned.
\<close>
theorem extract_failure_record:
  assumes "inst_Exception e"
    and "open_rb env pdf_path = Inl e \<or>
         (\<exists>file. open_rb env pdf_path = Inr file \<and> PdfReader env file = Inl e) \<or>
         (\<exists>file reader n. open_rb env pdf_path = Inr file \<and> PdfReader env file = Inr reader \<and>
            n < length (pages reader) \<and> (\<forall>i<n. \<exists>s. pages reader ! i = Inr (PyStr s)) \<and>
            pages reader ! n = Inl e)"
  shows "extract_text_from_pdf env pdf_path =
           Inr [(''success'', PyBool False),
                (''error'', PyStr (str_exn e)),
                (''text'', PyStr []),
                (''pages'', PyInt 0),
                (''length'', PyInt 0)]"
proof -
  from assms(2) have "try_body env pdf_path = Inl e"
  proof (elim disjE exE conjE)
    assume "open_rb env pdf_path = Inl e"
    then show ?thesis by (simp add: try_body_def)
  next
    fix fl assume "open_rb env pdf_path = Inr fl" "PdfReader env fl = Inl e"
    then show ?thesis by (simp add: try_body_def)
  next
    fix fl reader n
    assume o: "open_rb env pdf_path = Inr fl" and r: "PdfReader env fl = Inr reader"
      and n: "n < length (pages reader)"
      and b: "\<forall>i<n. \<exists>s. pages reader ! i = Inr (PyStr s)" and a: "pages reader ! n = Inl e"
    from for_pages_raises [OF n b a] show ?thesis by (rule try_body_page_raises [OF o r])
  qed
  with assms(1) show ?thesis by (simp add: extract_text_from_pdf_def failure_def)
qed

theorem extract_failure_record_witness:
  "inst_Exception (Exn True (ascii ''bad page'')) \<and>
   open_rb (env_with_pages [Inr (PyStr (ascii ''A'')), Inl (Exn True (ascii ''bad page''))])
     (ascii ''a.pdf'') = Inr 3 \<and>
   PdfReader (env_with_pages [Inr (PyStr (ascii ''A'')), Inl (Exn True (ascii ''bad page''))]) 3 =
     Inr \<lparr>pages = [Inr (PyStr (ascii ''A'')), Inl (Exn True (ascii ''bad page''))]\<rparr> \<and>
   extract_text_from_pdf
     (env_with_pages [Inr (PyStr (ascii ''A'')), Inl (Exn True (ascii ''bad page''))])
     (ascii ''a.pdf'') =
     Inr [(''success'', PyBool False),
          (''error'', PyStr (str_exn (Exn True (ascii ''bad page'')))),
          (''text'', PyStr []),
          (''pages'', PyInt 0),
          (''length'', PyInt 0)]"
proof -
  let ?ps = "[Inr (PyStr (ascii ''A'')), Inl (Exn True (ascii ''bad page''))]"
  have i: "inst_Exception (Exn True (ascii ''bad page''))" by simp
  have o: "open_rb (env_with_pages ?ps) (ascii ''a.pdf'') = Inr 3"
    by (simp add: env_with_pages_def)
  have r: "PdfReader (env_with_pages ?ps) 3 = Inr \<lparr>pages = ?ps\<rparr>"
    by (simp add: env_with_pages_def)
  have "\<exists>file reader n. open_rb (env_with_pages ?ps) (ascii ''a.pdf'') = Inr file \<and>
          PdfReader (env_with_pages ?ps) file = Inr reader \<and>
          n < length (pages reader) \<and> (\<forall>i<n. \<exists>s. pages reader ! i = Inr (PyStr s)) \<and>
          pages reader ! n = Inl (Exn True (ascii ''bad page''))"
    by (rule exI [of _ 3], rule exI [of _ "\<lparr>pages = ?ps\<rparr>"], rule exI [of _ 1])
       (simp add: env_with_pages_def)
  then have d: "open_rb (env_with_pages ?ps) (ascii ''a.pdf'') = Inl (Exn True (ascii ''bad page'')) \<or>
         (\<exists>file. open_rb (env_with_pages ?ps) (ascii ''a.pdf'') = Inr file \<and>
            PdfReader (env_with_pages ?ps) file = Inl (Exn True (ascii ''bad page''))) \<or>
         (\<exists>file reader n. open_rb (env_with_pages ?ps) (ascii ''a.pdf'') = Inr file \<and>
            PdfReader (env_with_pages ?ps) file = Inr reader \<and>
            n < length (pages reader) \<and> (\<forall>i<n. \<exists>s. pages reader ! i = Inr (PyStr s)) \<and>
            pages reader ! n = Inl (Exn True (ascii ''bad page'')))"
    by (intro disjI2)
  show ?thesis
    by (intro conjI) (rule i, rule o, rule r, rule extract_failure_record [OF i d])
qed


text \<open>
  Claim C4.  The program is run on \<open>sys.argv = prog # args\<close>.  With no argument, or two or
  more, it prints the usage dictionary and exits with status 1.  With one argument it prints
  the dictionary \<open>extract_text_from_pdf\<close> returns, as one JSON object, and exits with status
  0; this holds also when the extraction fails with an error \<open>e\<close>, where the object printed
  is the failure dictionary of \<open>e\<close>.
\<close>
theorem main_exit_status:
  "(length args \<noteq> 1 \<longrightarrow>
      main env (prog # args) =
        Inr ([[(''success'', PyBool False),
               (''error'', PyStr (ascii ''Usage: python extract_pdf_text.py <pdf_path>'')),
               (''text'', PyStr []),
               (''pages'', PyInt 0),
               (''length'', PyInt 0)]], 1)) \<and>
   (raises_only_errors env pdf_path \<longrightarrow>
      (\<exists>result. extract_text_from_pdf env pdf_path = Inr result \<and>
         main env [prog, pdf_path] = Inr ([result], 0))) \<and>
   (try_body env pdf_path = Inl e \<and> inst_Exception e \<longrightarrow>
      main env [prog, pdf_path] =
        Inr ([[(''success'', PyBool False),
               (''error'', PyStr (str_exn e)),
               (''text'', PyStr []),
               (''pages'', PyInt 0),
               (''length'', PyInt 0)]], 0))"
proof (intro conjI impI)
  assume "length args \<noteq> 1"
  then show "main env (prog # args) =
        Inr ([[(''success'', PyBool False),
               (''error'', PyStr (ascii ''Usage: python extract_pdf_text.py <pdf_path>'')),
               (''text'', PyStr []),
               (''pages'', PyInt 0),
               (''length'', PyInt 0)]], 1)"
    by (simp add: main_def usage_def)
next
  assume "raises_only_errors env pdf_path"
  then obtain result where r: "extract_text_from_pdf env pdf_path = Inr result"
    using extract_returns by blast
  then have "main env [prog, pdf_path] = Inr ([result], 0)"
    by (simp add: main_def)
  with r show "\<exists>result. extract_text_from_pdf env pdf_path = Inr result \<and>
         main env [prog, pdf_path] = Inr ([result], 0)"
    by simp
next
  assume "try_body env pdf_path = Inl e \<and> inst_Exception e"
  then have "extract_text_from_pdf env pdf_path = Inr (failure (str_exn e))"
    by (simp add: extract_raises_error)
  then show "main env [prog, pdf_path] =
        Inr ([[(''success'', PyBool False),
               (''error'', PyStr (str_exn e)),
               (''text'', PyStr []),
               (''pages'', PyInt 0),
               (''length'', PyInt 0)]], 0)"
    by (simp add: main_def failure_def)
qed

theorem main_exit_status_witness:
  "main env_no_file [ascii ''extract_pdf_text.py''] = Inr ([usage], 1) \<and>
   main env_no_file [ascii ''extract_pdf_text.py'', ascii ''a.pdf'', ascii ''b.pdf''] =
     Inr ([usage], 1) \<and>
   raises_only_errors env_no_file (ascii ''a.pdf'') \<and>
   try_body env_no_file (ascii ''a.pdf'') = Inl (Exn True (ascii ''No such file or directory'')) \<and>
   main env_no_file [ascii ''extract_pdf_text.py'', ascii ''a.pdf''] =
     Inr ([failure (ascii ''No such file or directory'')], 0)"
proof -
  have a0: "length ([] :: pystr list) \<noteq> 1" by simp
  have a2: "length [ascii ''a.pdf'', ascii ''b.pdf''] \<noteq> 1" by simp
  have ok: "raises_only_errors env_no_file (ascii ''a.pdf'')"
    by (simp add: raises_only_errors_def env_no_file_def)
  have b: "try_body env_no_file (ascii ''a.pdf'') = Inl (Exn True (ascii ''No such file or directory''))"
    by (simp add: try_body_def env_no_file_def)
  have i: "inst_Exception (Exn True (ascii ''No such file or directory''))" by simp
  note m0 = main_exit_status [of "[]" env_no_file "ascii ''extract_pdf_text.py''" "ascii ''a.pdf''"
      "Exn True (ascii ''No such file or directory'')"]
  note m2 = main_exit_status [of "[ascii ''a.pdf'', ascii ''b.pdf'']" env_no_file
      "ascii ''extract_pdf_text.py''" "ascii ''a.pdf''" "Exn True (ascii ''No such file or directory'')"]
  from m0 a0 have u0: "main env_no_file [ascii ''extract_pdf_text.py''] = Inr ([usage], 1)"
    by (simp add: usage_def)
  from m2 a2 have u2: "main env_no_file [ascii ''extract_pdf_text.py'', ascii ''a.pdf'', ascii ''b.pdf''] =
     Inr ([usage], 1)"
    by (simp add: usage_def)
  from m0 b i have f: "main env_no_file [ascii ''extract_pdf_text.py'', ascii ''a.pdf''] =
     Inr ([failure (ascii ''No such file or directory'')], 0)"
    by (simp add: failure_def)
  show ?thesis by (intro conjI) (rule u0, rule u2, rule ok, rule b, rule f)
qed

text \<open>
  Claim C5.  When every page of the document gives a text that is empty or whitespace only,
  the result has \<open>success\<close> true, the empty text, length 0, and \<open>pages\<close> the number of pages of
  the reader.
\<close>
theorem extract_blank_pages:
  assumes "open_rb env pdf_path = Inr file" and "PdfReader env file = Inr reader"
    and "pages reader = map (\<lambda>t. Inr (PyStr t)) page_texts"
    and "\<forall>t \<in> set page_texts. strip t = []"
  shows "extract_text_from_pdf env pdf_path =
           Inr [(''success'', PyBool True),
                (''text'', PyStr []),
                (''pages'', PyInt (int (length (pages reader)))),
                (''length'', PyInt 0)]"
proof -
  have "length (pages reader) = length page_texts" using assms(3) by simp
  moreover have "spec_text page_texts = []" using assms(4) by (rule spec_text_blank)
  ultimately show ?thesis using extract_strings [OF assms(1-3)] by simp
qed

theorem extract_blank_pages_witness:
  "open_rb (env_with_pages (map (\<lambda>t. Inr (PyStr t)) [[], [32, 10], [9]])) (ascii ''a.pdf'') = Inr 3 \<and>
   list_all (\<lambda>t. strip t = []) [[], [32, 10], [9]] \<and>
   extract_text_from_pdf (env_with_pages (map (\<lambda>t. Inr (PyStr t)) [[], [32, 10], [9]]))
     (ascii ''a.pdf'') =
     Inr [(''success'', PyBool True), (''text'', PyStr []), (''pages'', PyInt 3),
          (''length'', PyInt 0)]"
proof -
  let ?ts = "[[], [32, 10], [9]] :: pystr list"
  let ?env = "env_with_pages (map (\<lambda>t. Inr (PyStr t)) ?ts)"
  have o: "open_rb ?env (ascii ''a.pdf'') = Inr 3" by (simp add: env_with_pages_def)
  have r: "PdfReader ?env 3 = Inr \<lparr>pages = map (\<lambda>t. Inr (PyStr t)) ?ts\<rparr>"
    by (simp add: env_with_pages_def)
  have p: "pages \<lparr>pages = map (\<lambda>t. Inr (PyStr t)) ?ts\<rparr> = map (\<lambda>t. Inr (PyStr t)) ?ts" by simp
  have b: "\<forall>t \<in> set ?ts. strip t = []" by (simp add: eval_defs)
  then have b': "list_all (\<lambda>t. strip t = []) ?ts" by (simp only: list_all_iff)
  from extract_blank_pages [OF o r p b]
  have "extract_text_from_pdf ?env (ascii ''a.pdf'') =
     Inr [(''success'', PyBool True), (''text'', PyStr []), (''pages'', PyInt 3),
          (''length'', PyInt 0)]" by simp
  with o b' show ?thesis by (intro conjI)
qed

text \<open>
  Claim C6.  For a document of two pages with the texts "A" and "B", the text of the result
  is "A", two line breaks, "B".
\<close>
theorem extract_two_pages:
  assumes "open_rb env pdf_path = Inr file" and "PdfReader env file = Inr reader"
    and "pages reader = [Inr (PyStr (ascii ''A'')), Inr (PyStr (ascii ''B''))]"
  shows "\<exists>result. extract_text_from_pdf env pdf_path = Inr result \<and>
           map_of result ''text'' = Some (PyStr (ascii ''A'' @ [10, 10] @ ascii ''B''))"
proof -
  have "pages reader = map (\<lambda>t. Inr (PyStr t)) [ascii ''A'', ascii ''B'']"
    using assms(3) by simp
  note extract_strings [OF assms(1,2) this]
  moreover have "spec_text [ascii ''A'', ascii ''B''] = ascii ''A'' @ [10, 10] @ ascii ''B''"
    by (simp add: spec_text_def nonblank_def strip_def lstrip_def rstrip_def isspace_def ascii_def)
  ultimately show ?thesis by simp
qed

theorem extract_two_pages_witness:
  "PdfReader (env_with_pages [Inr (PyStr (ascii ''A'')), Inr (PyStr (ascii ''B''))]) 3 =
     Inr \<lparr>pages = [Inr (PyStr (ascii ''A'')), Inr (PyStr (ascii ''B''))]\<rparr> \<and>
   (\<exists>result. extract_text_from_pdf
      (env_with_pages [Inr (PyStr (ascii ''A'')), Inr (PyStr (ascii ''B''))]) (ascii ''two.pdf'') =
        Inr result \<and>
      map_of result ''text'' = Some (PyStr (ascii ''A'' @ [10, 10] @ ascii ''B''))) \<and>
   ascii ''A'' @ [10, 10] @ ascii ''B'' = [65, 10, 10, 66]"
proof -
  let ?ps = "[Inr (PyStr (ascii ''A'')), Inr (PyStr (ascii ''B''))]"
  have o: "open_rb (env_with_pages ?ps) (ascii ''two.pdf'') = Inr 3"
    by (simp add: env_with_pages_def)
  have r: "PdfReader (env_with_pages ?ps) 3 = Inr \<lparr>pages = ?ps\<rparr>"
    by (simp add: env_with_pages_def)
  have p: "pages \<lparr>pages = ?ps\<rparr> = ?ps" by simp
  have a: "ascii ''A'' @ [10, 10] @ ascii ''B'' = [65, 10, 10, 66]" by (simp add: ascii_def)
  show ?thesis by (intro conjI) (rule r, rule extract_two_pages [OF o r p], rule a)
qed

text \<open>
  Claim C7.  Whatever error is raised while opening the file, loading the document or
  extracting a page, and also by the loop itself on what a page returned, the function
  returns a dictionary: no error leaves it.  The error that ended the \<open>try\<close> block is turned
  into the failure dictionary.
\<close>
theorem extract_never_raises:
  assumes "raises_only_errors env pdf_path"
  shows "\<exists>result. extract_text_from_pdf env pdf_path = Inr result \<and>
           (\<forall>e. try_body env pdf_path = Inl e \<longrightarrow>
              result = [(''success'', PyBool False),
                        (''error'', PyStr (str_exn e)),
                        (''text'', PyStr []),
                        (''pages'', PyInt 0),
                        (''length'', PyInt 0)])"
proof (cases "try_body env pdf_path")
  case (Inl e)
  with assms have "inst_Exception e" by (simp add: try_body_Inl_error)
  with Inl show ?thesis by (simp add: extract_text_from_pdf_def failure_def)
next
  case (Inr r)
  then show ?thesis by (simp add: extract_text_from_pdf_def)
qed

theorem extract_never_raises_witness:
  "raises_only_errors env_not_pdf (ascii ''notes.txt'') \<and>
   try_body env_not_pdf (ascii ''notes.txt'') = Inl (Exn True (ascii ''EOF marker not found'')) \<and>
   extract_text_from_pdf env_not_pdf (ascii ''notes.txt'') =
     Inr [(''success'', PyBool False),
          (''error'', PyStr (ascii ''EOF marker not found'')),
          (''text'', PyStr []),
          (''pages'', PyInt 0),
          (''length'', PyInt 0)]"
proof -
  have ok: "raises_only_errors env_not_pdf (ascii ''notes.txt'')"
    by (simp add: raises_only_errors_def env_not_pdf_def)
  have b: "try_body env_not_pdf (ascii ''notes.txt'') = Inl (Exn True (ascii ''EOF marker not found''))"
    by (simp add: try_body_def env_not_pdf_def)
  from extract_never_raises [OF ok] b
  have "extract_text_from_pdf env_not_pdf (ascii ''notes.txt'') =
     Inr [(''success'', PyBool False),
          (''error'', PyStr (ascii ''EOF marker not found'')),
          (''text'', PyStr []),
          (''pages'', PyInt 0),
          (''length'', PyInt 0)]"
    by auto
  with ok b show ?thesis by (intro conjI)
qed


lemma try_body_not_str:
  assumes "open_rb env pdf_path = Inr fl" and "PdfReader env fl = Inr reader"
    and "n < length (pages reader)" and "pages reader ! n = Inr v" and "\<forall>s. v \<noteq> PyStr s"
  shows "\<exists>e. try_body env pdf_path = Inl e"
proof (cases "try_body env pdf_path")
  case (Inl e)
  then show ?thesis by simp
next
  case (Inr result)
  then obtain fl' reader' page_texts where "open_rb env pdf_path = Inr fl'"
    "PdfReader env fl' = Inr reader'" "pages reader' = map (\<lambda>t. Inr (PyStr t)) page_texts"
    using try_body_Inr_strings by blast
  with assms(1,2) have "pages reader = map (\<lambda>t. Inr (PyStr t)) page_texts" by simp
  with assms(3,4) have "v = PyStr (page_texts ! n)" by simp
  with assms(5) show ?thesis by simp
qed

lemma getitem_same_page:
  assumes "list_all2 same_page ps qs"
  shows "same_page (getitem ps i) (getitem qs i)"
proof (cases "i < length ps")
  case True
  with assms have "same_page (ps ! i) (qs ! i)" by (simp add: list_all2_nthD)
  moreover from assms have "length ps = length qs" by (rule list_all2_lengthD)
  ultimately show ?thesis using True by (simp add: getitem_def)
next
  case False
  moreover from assms have "length ps = length qs" by (rule list_all2_lengthD)
  ultimately show ?thesis by (simp add: getitem_def same_page_def)
qed

lemma for_pages_same_page:
  assumes "list_all2 same_page (pages reader1) (pages reader2)"
  shows "(\<exists>e1 e2. for_pages reader1 idxs acc = Inl e1 \<and> for_pages reader2 idxs acc = Inl e2) \<or>
         (\<exists>a. for_pages reader1 idxs acc = Inr a \<and> for_pages reader2 idxs acc = Inr a)"
proof (induction idxs arbitrary: acc)
  case Nil
  show ?case by simp
next
  case (Cons i idxs)
  from assms have same: "same_page (getitem (pages reader1) i) (getitem (pages reader2) i)"
    by (rule getitem_same_page)
  show ?case
  proof (cases "getitem (pages reader1) i")
    case (Inl e1)
    with same obtain e2 where "getitem (pages reader2) i = Inl e2"
      by (cases "getitem (pages reader2) i") (simp_all add: same_page_def)
    with Inl show ?thesis by simp
  next
    case (Inr v)
    with same have v2: "getitem (pages reader2) i = Inr v" by (simp add: same_page_def)
    show ?thesis
    proof (cases v)
      case (PyStr s)
      with Inr v2 Cons.IH show ?thesis by simp
    qed (use Inr v2 in simp_all)
  qed
qed

lemma try_body_same_file:
  assumes "same_file env1 env2 pdf_path"
  shows "(\<exists>e1 e2. try_body env1 pdf_path = Inl e1 \<and> try_body env2 pdf_path = Inl e2) \<or>
         (\<exists>r. try_body env1 pdf_path = Inr r \<and> try_body env2 pdf_path = Inr r)"
proof (cases "open_rb env1 pdf_path")
  case (Inl e1)
  with assms obtain e2 where "open_rb env2 pdf_path = Inl e2"
    by (cases "open_rb env2 pdf_path") (simp_all add: same_file_def)
  with Inl show ?thesis by (simp add: try_body_def)
next
  case o1: (Inr f1)
  with assms obtain f2 where o2: "open_rb env2 pdf_path = Inr f2"
    by (cases "open_rb env2 pdf_path") (simp_all add: same_file_def)
  show ?thesis
  proof (cases "PdfReader env1 f1")
    case (Inl e1)
    with assms o1 o2 obtain e2 where "PdfReader env2 f2 = Inl e2"
      by (cases "PdfReader env2 f2") (simp_all add: same_file_def)
    with Inl o1 o2 show ?thesis by (simp add: try_body_def)
  next
    case r1: (Inr reader1)
    with assms o1 o2 obtain reader2 where r2: "PdfReader env2 f2 = Inr reader2"
      by (cases "PdfReader env2 f2") (simp_all add: same_file_def)
    with assms o1 o2 r1 have same: "list_all2 same_page (pages reader1) (pages reader2)"
      by (simp add: same_file_def)
    then have len: "length (pages reader1) = length (pages reader2)"
      by (rule list_all2_lengthD)
    from for_pages_same_page [OF same, of "[0..<length (pages reader1)]" "[]"]
    show ?thesis
    proof (elim disjE exE conjE)
      fix e1 e2
      assume "for_pages reader1 [0..<length (pages reader1)] [] = Inl e1"
        and "for_pages reader2 [0..<length (pages reader1)] [] = Inl e2"
      with o1 o2 r1 r2 len show ?thesis by (simp add: try_body_def)
    next
      fix a
      assume "for_pages reader1 [0..<length (pages reader1)] [] = Inr a"
        and "for_pages reader2 [0..<length (pages reader1)] [] = Inr a"
      with o1 o2 r1 r2 len show ?thesis by (simp add: try_body_def Let_def)
    qed
  qed
qed

lemma try_body_Inr_fields:
  assumes "try_body env pdf_path = Inr r"
  shows "\<exists>t n l. map_of r ''success'' = Some (PyBool True) \<and> map_of r ''text'' = Some t \<and>
           map_of r ''pages'' = Some n \<and> map_of r ''length'' = Some l"
  using assms by (auto simp: try_body_def Let_def split: sum.splits)

text \<open>
  Claim C8.  Two runs on the same path that see the same unmodified file, whether it is
  missing, no PDF document, or a document whose pages give the same texts in both runs (a
  page may also fail in both), return results with the same \<open>success\<close>, \<open>text\<close>, \<open>pages\<close> and
  \<open>length\<close>.  The file objects and the messages of the errors may differ between the runs, so
  the key \<open>error\<close> is the only one that may differ.
\<close>
theorem extract_twice_same:
  assumes "same_file env1 env2 pdf_path"
    and "raises_only_errors env1 pdf_path" and "raises_only_errors env2 pdf_path"
  shows "\<exists>result1 result2 s t n l.
           extract_text_from_pdf env1 pdf_path = Inr result1 \<and>
           extract_text_from_pdf env2 pdf_path = Inr result2 \<and>
           map_of result1 ''success'' = Some s \<and> map_of result2 ''success'' = Some s \<and>
           map_of result1 ''text'' = Some t \<and> map_of result2 ''text'' = Some t \<and>
           map_of result1 ''pages'' = Some n \<and> map_of result2 ''pages'' = Some n \<and>
           map_of result1 ''length'' = Some l \<and> map_of result2 ''length'' = Some l"
  using try_body_same_file [OF assms(1)]
proof (elim disjE exE conjE)
  fix e1 e2
  assume b1: "try_body env1 pdf_path = Inl e1" and b2: "try_body env2 pdf_path = Inl e2"
  from assms(2) b1 have "inst_Exception e1" by (rule try_body_Inl_error)
  with b1 have x1: "extract_text_from_pdf env1 pdf_path = Inr (failure (str_exn e1))"
    by (rule extract_raises_error)
  from assms(3) b2 have "inst_Exception e2" by (rule try_body_Inl_error)
  with b2 have x2: "extract_text_from_pdf env2 pdf_path = Inr (failure (str_exn e2))"
    by (rule extract_raises_error)
  have "map_of (failure (str_exn e1)) ''success'' = Some (PyBool False) \<and>
        map_of (failure (str_exn e2)) ''success'' = Some (PyBool False) \<and>
        map_of (failure (str_exn e1)) ''text'' = Some (PyStr []) \<and>
        map_of (failure (str_exn e2)) ''text'' = Some (PyStr []) \<and>
        map_of (failure (str_exn e1)) ''pages'' = Some (PyInt 0) \<and>
        map_of (failure (str_exn e2)) ''pages'' = Some (PyInt 0) \<and>
        map_of (failure (str_exn e1)) ''length'' = Some (PyInt 0) \<and>
        map_of (failure (str_exn e2)) ''length'' = Some (PyInt 0)"
    by (simp add: failure_def)
  with x1 x2 show ?thesis by blast
next
  fix r
  assume b1: "try_body env1 pdf_path = Inr r" and b2: "try_body env2 pdf_path = Inr r"
  then have "extract_text_from_pdf env1 pdf_path = Inr r"
    and "extract_text_from_pdf env2 pdf_path = Inr r"
    by (simp_all add: extract_text_from_pdf_def)
  moreover from try_body_Inr_fields [OF b1] obtain t n l where
    "map_of r ''success'' = Some (PyBool True)" "map_of r ''text'' = Some t"
    "map_of r ''pages'' = Some n" "map_of r ''length'' = Some l"
    by blast
  ultimately show ?thesis by blast
qed

theorem extract_twice_same_witness:
  "same_file env_no_file rerun_no_file (ascii ''gone.pdf'') \<and>
   (\<exists>result1 result2 s t n l.
      extract_text_from_pdf env_no_file (ascii ''gone.pdf'') = Inr result1 \<and>
      extract_text_from_pdf rerun_no_file (ascii ''gone.pdf'') = Inr result2 \<and>
      map_of result1 ''success'' = Some s \<and> map_of result2 ''success'' = Some s \<and>
      map_of result1 ''text'' = Some t \<and> map_of result2 ''text'' = Some t \<and>
      map_of result1 ''pages'' = Some n \<and> map_of result2 ''pages'' = Some n \<and>
      map_of result1 ''length'' = Some l \<and> map_of result2 ''length'' = Some l) \<and>
   same_file env_not_pdf rerun_not_pdf (ascii ''notes.txt'') \<and>
   (\<exists>result1 result2 s t n l.
      extract_text_from_pdf env_not_pdf (ascii ''notes.txt'') = Inr result1 \<and>
      extract_text_from_pdf rerun_not_pdf (ascii ''notes.txt'') = Inr result2 \<and>
      map_of result1 ''success'' = Some s \<and> map_of result2 ''success'' = Some s \<and>
      map_of result1 ''text'' = Some t \<and> map_of result2 ''text'' = Some t \<and>
      map_of result1 ''pages'' = Some n \<and> map_of result2 ''pages'' = Some n \<and>
      map_of result1 ''length'' = Some l \<and> map_of result2 ''length'' = Some l) \<and>
   same_file (env_with_pages [Inr (PyStr (ascii ''one'')), Inr (PyStr (ascii ''two''))]) (rerun_with_pages [Inr (PyStr (ascii ''one'')), Inr (PyStr (ascii ''two''))]) (ascii ''a.pdf'') \<and>
   (\<exists>result1 result2 s t n l.
      extract_text_from_pdf (env_with_pages [Inr (PyStr (ascii ''one'')), Inr (PyStr (ascii ''two''))]) (ascii ''a.pdf'') = Inr result1 \<and>
      extract_text_from_pdf (rerun_with_pages [Inr (PyStr (ascii ''one'')), Inr (PyStr (ascii ''two''))]) (ascii ''a.pdf'') = Inr result2 \<and>
      map_of result1 ''success'' = Some s \<and> map_of result2 ''success'' = Some s \<and>
      map_of result1 ''text'' = Some t \<and> map_of result2 ''text'' = Some t \<and>
      map_of result1 ''pages'' = Some n \<and> map_of result2 ''pages'' = Some n \<and>
      map_of result1 ''length'' = Some l \<and> map_of result2 ''length'' = Some l) \<and>
   extract_text_from_pdf env_no_file (ascii ''gone.pdf'') =
     Inr (failure (ascii ''No such file or directory'')) \<and>
   extract_text_from_pdf rerun_no_file (ascii ''gone.pdf'') =
     Inr (failure (ascii ''Permission denied''))"
proof -
  have s0: "same_file env_no_file rerun_no_file (ascii ''gone.pdf'')"
    by (simp add: same_file_def same_page_def env_with_pages_def env_no_file_def env_not_pdf_def
        rerun_with_pages_def rerun_no_file_def rerun_not_pdf_def)
  have a0: "raises_only_errors env_no_file (ascii ''gone.pdf'')"
    by (simp add: raises_only_errors_def is_error_page_def env_with_pages_def env_no_file_def
        env_not_pdf_def)
  have b0: "raises_only_errors rerun_no_file (ascii ''gone.pdf'')"
    by (simp add: raises_only_errors_def is_error_page_def rerun_with_pages_def rerun_no_file_def
        rerun_not_pdf_def)
  have s1: "same_file env_not_pdf rerun_not_pdf (ascii ''notes.txt'')"
    by (simp add: same_file_def same_page_def env_with_pages_def env_no_file_def env_not_pdf_def
        rerun_with_pages_def rerun_no_file_def rerun_not_pdf_def)
  have a1: "raises_only_errors env_not_pdf (ascii ''notes.txt'')"
    by (simp add: raises_only_errors_def is_error_page_def env_with_pages_def env_no_file_def
        env_not_pdf_def)
  have b1: "raises_only_errors rerun_not_pdf (ascii ''notes.txt'')"
    by (simp add: raises_only_errors_def is_error_page_def rerun_with_pages_def rerun_no_file_def
        rerun_not_pdf_def)
  have s2: "same_file (env_with_pages [Inr (PyStr (ascii ''one'')), Inr (PyStr (ascii ''two''))]) (rerun_with_pages [Inr (PyStr (ascii ''one'')), Inr (PyStr (ascii ''two''))]) (ascii ''a.pdf'')"
    by (simp add: same_file_def same_page_def env_with_pages_def env_no_file_def env_not_pdf_def
        rerun_with_pages_def rerun_no_file_def rerun_not_pdf_def)
  have a2: "raises_only_errors (env_with_pages [Inr (PyStr (ascii ''one'')), Inr (PyStr (ascii ''two''))]) (ascii ''a.pdf'')"
    by (simp add: raises_only_errors_def is_error_page_def env_with_pages_def env_no_file_def
        env_not_pdf_def)
  have b2: "raises_only_errors (rerun_with_pages [Inr (PyStr (ascii ''one'')), Inr (PyStr (ascii ''two''))]) (ascii ''a.pdf'')"
    by (simp add: raises_only_errors_def is_error_page_def rerun_with_pages_def rerun_no_file_def
        rerun_not_pdf_def)
  have r1: "extract_text_from_pdf env_no_file (ascii ''gone.pdf'') =
     Inr (failure (ascii ''No such file or directory''))"
    by (simp add: extract_text_from_pdf_def try_body_def env_no_file_def)
  have r2: "extract_text_from_pdf rerun_no_file (ascii ''gone.pdf'') =
     Inr (failure (ascii ''Permission denied''))"
    by (simp add: extract_text_from_pdf_def try_body_def rerun_no_file_def)
  show ?thesis
    by (intro conjI)
       (rule s0,
        rule extract_twice_same [OF s0 a0 b0],
        rule s1,
        rule extract_twice_same [OF s1 a1 b1],
        rule s2,
        rule extract_twice_same [OF s2 a2 b2],
        rule r1,
        rule r2)
qed

text \<open>
  Claim C9.  The result of a successful extraction has the keys \<open>success\<close>, \<open>text\<close>, \<open>pages\<close>
  and \<open>length\<close>, in this order, and no others: it has no key \<open>error\<close>.
\<close>
theorem success_result_keys:
  assumes "extract_text_from_pdf env pdf_path = Inr result"
    and "map_of result ''success'' = Some (PyBool True)"
  shows "map fst result = [''success'', ''text'', ''pages'', ''length''] \<and>
         map_of result ''error'' = None"
proof -
  from assms have "try_body env pdf_path = Inr result" by (rule extract_success_body)
  then show ?thesis by (auto simp: try_body_def Let_def split: sum.splits)
qed

theorem success_result_keys_witness:
  "extract_text_from_pdf (env_with_pages [Inr (PyStr (ascii ''x''))]) (ascii ''a.pdf'') =
     Inr [(''success'', PyBool True), (''text'', PyStr [120]), (''pages'', PyInt 1),
          (''length'', PyInt 1)] \<and>
   map fst [(''success'', PyBool True), (''text'', PyStr [120]), (''pages'', PyInt 1),
            (''length'', PyInt (1::int))] = [''success'', ''text'', ''pages'', ''length''] \<and>
   map_of [(''success'', PyBool True), (''text'', PyStr [120]), (''pages'', PyInt 1),
           (''length'', PyInt 1)] ''error'' = None"
proof -
  have run: "extract_text_from_pdf (env_with_pages [Inr (PyStr (ascii ''x''))]) (ascii ''a.pdf'') =
     Inr [(''success'', PyBool True), (''text'', PyStr [120]), (''pages'', PyInt 1),
          (''length'', PyInt 1)]"
    by (simp add: eval_defs)
  have ok: "map_of [(''success'', PyBool True), (''text'', PyStr [120]), (''pages'', PyInt 1),
          (''length'', PyInt 1)] ''success'' = Some (PyBool True)"
    by simp
  from success_result_keys [OF run ok] run show ?thesis by (intro conjI) simp_all
qed

text \<open>
  Claim C10.  When the library gives \<open>None\<close> as the text of page \<open>n\<close>, in a run where whatever
  else is raised is an error, the function returns the failure dictionary.  When the pages
  before \<open>n\<close> gave strings, the message is that of the \<open>AttributeError\<close> raised by
  \<open>page_text.strip()\<close>: \<open>'NoneType' object has no attribute 'strip'\<close>.
\<close>
theorem extract_None_page:
  assumes "open_rb env pdf_path = Inr file" and "PdfReader env file = Inr reader"
    and "n < length (pages reader)" and "pages reader ! n = Inr PyNone"
    and "raises_only_errors env pdf_path"
  shows "\<exists>msg. extract_text_from_pdf env pdf_path =
           Inr [(''success'', PyBool False),
                (''error'', PyStr msg),
                (''text'', PyStr []),
                (''pages'', PyInt 0),
                (''length'', PyInt 0)] \<and>
           ((\<forall>i<n. \<exists>s. pages reader ! i = Inr (PyStr s)) \<longrightarrow>
              msg = ascii (CHR 0x27 # ''NoneType'' @ CHR 0x27 # '' object has no attribute '' @
                           CHR 0x27 # ''strip'' @ [CHR 0x27]))"
proof (cases "\<forall>i<n. \<exists>s. pages reader ! i = Inr (PyStr s)")
  case True
  have "for_pages reader [0..<length (pages reader)] [] = Inl (AttributeError PyNone ''strip'')"
    by (rule for_pages_not_str [OF assms(3) True assms(4)]) simp
  then have "try_body env pdf_path = Inl (AttributeError PyNone ''strip'')"
    by (rule try_body_page_raises [OF assms(1,2)])
  then have "extract_text_from_pdf env pdf_path =
      Inr (failure (str_exn (AttributeError PyNone ''strip'')))"
    by (rule extract_raises_error) (simp add: AttributeError_def)
  then show ?thesis by (simp add: failure_def AttributeError_def)
next
  case False
  have "\<exists>e. try_body env pdf_path = Inl e"
    by (rule try_body_not_str [OF assms(1-4)]) simp
  then obtain e where e: "try_body env pdf_path = Inl e" ..
  with assms(5) have "inst_Exception e" by (simp add: try_body_Inl_error)
  with e have "extract_text_from_pdf env pdf_path = Inr (failure (str_exn e))"
    by (rule extract_raises_error)
  then have "extract_text_from_pdf env pdf_path =
           Inr [(''success'', PyBool False),
                (''error'', PyStr (str_exn e)),
                (''text'', PyStr []),
                (''pages'', PyInt 0),
                (''length'', PyInt 0)]"
    by (simp add: failure_def)
  moreover from False have "(\<forall>i<n. \<exists>s. pages reader ! i = Inr (PyStr s)) \<longrightarrow>
      str_exn e = ascii (CHR 0x27 # ''NoneType'' @ CHR 0x27 # '' object has no attribute '' @
                           CHR 0x27 # ''strip'' @ [CHR 0x27])"
    by blast
  ultimately show ?thesis by (intro exI [of _ "str_exn e"] conjI)
qed

theorem extract_None_page_witness:
  "pages \<lparr>pages = [Inr (PyStr (ascii ''A'')), Inr PyNone, Inr (PyStr (ascii ''B''))]\<rparr> ! 1 = Inr PyNone \<and>
   raises_only_errors
     (env_with_pages [Inr (PyStr (ascii ''A'')), Inr PyNone, Inr (PyStr (ascii ''B''))])
     (ascii ''a.pdf'') \<and>
   extract_text_from_pdf
     (env_with_pages [Inr (PyStr (ascii ''A'')), Inr PyNone, Inr (PyStr (ascii ''B''))])
     (ascii ''a.pdf'') =
     Inr [(''success'', PyBool False),
          (''error'', PyStr (ascii (CHR 0x27 # ''NoneType'' @ CHR 0x27 #
                  '' object has no attribute '' @ CHR 0x27 # ''strip'' @ [CHR 0x27]))),
          (''text'', PyStr []),
          (''pages'', PyInt 0),
          (''length'', PyInt 0)]"
proof -
  let ?ps = "[Inr (PyStr (ascii ''A'')), Inr PyNone, Inr (PyStr (ascii ''B''))]"
  have o: "open_rb (env_with_pages ?ps) (ascii ''a.pdf'') = Inr 3"
    by (simp add: env_with_pages_def)
  have r: "PdfReader (env_with_pages ?ps) 3 = Inr \<lparr>pages = ?ps\<rparr>"
    by (simp add: env_with_pages_def)
  have n: "1 < length (pages \<lparr>pages = ?ps\<rparr>)" by simp
  have a: "pages \<lparr>pages = ?ps\<rparr> ! 1 = Inr PyNone" by simp
  have ok: "raises_only_errors (env_with_pages ?ps) (ascii ''a.pdf'')"
    by (simp add: raises_only_errors_def env_with_pages_def is_error_page_def)
  have b: "\<forall>i<1. \<exists>s. pages \<lparr>pages = ?ps\<rparr> ! i = Inr (PyStr s)" by simp
  from extract_None_page [OF o r n a ok] b
  have "extract_text_from_pdf (env_with_pages ?ps) (ascii ''a.pdf'') =
     Inr [(''success'', PyBool False),
          (''error'', PyStr (ascii (CHR 0x27 # ''NoneType'' @ CHR 0x27 #
                  '' object has no attribute '' @ CHR 0x27 # ''strip'' @ [CHR 0x27]))),
          (''text'', PyStr []),
          (''pages'', PyInt 0),
          (''length'', PyInt 0)]"
    by blast
  with a ok show ?thesis by (intro conjI)
qed

end
